theory Spec2Isabelle
  imports Main
begin

section \<open>Text\<close>

text \<open>
  A Python \<open>str\<close> is a sequence of Unicode code points, so it is modelled as a list of
  natural numbers (one per code point) rather than as a list of 8-bit characters: the
  program handles Chinese titles, and the regular expression class \<open>\s\<close> matches
  white space beyond ASCII.  A Python \<open>bytes\<close> value is a list of 8-bit characters.
\<close>

type_synonym str = "nat list"
type_synonym bytes = "char list"

definition ascii :: "string \<Rightarrow> str" where
  "ascii cs = map of_char cs"

text \<open>
  The characters matched by \<open>\s\<close> in a \<open>str\<close> pattern, which are also the ones
  \<open>str.strip()\<close> removes: tab to carriage return, the four separators
  U+001C..U+001F, space, NEL, no-break space, and the Unicode space separators.
\<close>

definition is_space :: "nat \<Rightarrow> bool" where
  "is_space c \<longleftrightarrow>
     (9 \<le> c \<and> c \<le> 13) \<or> (28 \<le> c \<and> c \<le> 32) \<or> c = 133 \<or> c = 160 \<or> c = 5760 \<or>
     (8192 \<le> c \<and> c \<le> 8202) \<or> c = 8232 \<or> c = 8233 \<or> c = 8239 \<or> c = 8287 \<or> c = 12288"

definition strip :: "str \<Rightarrow> str" where
  "strip s = rev (dropWhile is_space (rev (dropWhile is_space s)))"

section \<open>The file-name sanitizer\<close>

text \<open>
  \<^verbatim>\<open>
  def slugify_filename(title):
      title = re.sub(r'[<>:"/\\|?*]', '', title)
      title = re.sub(r'\s+', '_', title)
      return title
  \<close>
  The first substitution deletes every character of the class; the second replaces
  every maximal run of white space by one underscore (\<open>re.sub\<close> scans from the left
  and \<open>\s+\<close> is greedy).
\<close>

definition reserved :: "nat set" where
  \<comment> \<open>the code points of \<^verbatim>\<open>< > : " / \ | ? *\<close>, in the order of the character class\<close>
  "reserved = {60, 62, 58, 34, 47, 92, 124, 63, 42}"

definition underscore :: nat where
  "underscore = of_char CHR ''_''"

definition sub_reserved :: "str \<Rightarrow> str" where
  "sub_reserved title = filter (\<lambda>c. c \<notin> reserved) title"

function sub_spaces :: "str \<Rightarrow> str" where
  "sub_spaces [] = []"
| "sub_spaces (c # cs) =
     (if is_space c then underscore # sub_spaces (dropWhile is_space cs)
      else c # sub_spaces cs)"
  by pat_completeness auto
termination
  by (relation "measure length") (auto simp: length_dropWhile_le less_Suc_eq_le)

definition slugify_filename :: "str \<Rightarrow> str" where
  "slugify_filename title = sub_spaces (sub_reserved title)"


section \<open>Constants of the program\<close>

text \<open>
  The site origin is ASCII; the three fallback labels are Chinese and are written as
  their code points: \<open>unknown_manga\<close> is U+672A U+77E5 U+6F2B U+756B,
  \<open>unknown_author\<close> is U+672A U+77E5 U+4F5C U+8005 and \<open>unknown_chapter\<close> is
  U+672A U+77E5 U+7AE0 U+7BC0.
\<close>

definition origin :: str where
  "origin = ascii ''https://www.baozimh.com''"

definition unknown_manga :: str where
  "unknown_manga = [26410, 30693, 28459, 30059]"

definition unknown_author :: str where
  "unknown_author = [26410, 30693, 20316, 32773]"

definition unknown_chapter :: str where
  "unknown_chapter = [26410, 30693, 31456, 31680]"

section \<open>Paths and file names\<close>

text \<open>
  \<open>os.path.join\<close> and \<open>os.path.basename\<close> on a POSIX system (the program builds its
  output directory as \<open>./...\<close>).  The separator \<open>/\<close> is code point 47.
\<close>

definition path_join :: "str \<Rightarrow> str \<Rightarrow> str" where
  "path_join a b =
     (if b \<noteq> [] \<and> hd b = 47 then b
      else if a = [] \<or> last a = 47 then a @ b
      else a @ 47 # b)"

definition basename :: "str \<Rightarrow> str" where
  "basename p = rev (takeWhile (\<lambda>c. c \<noteq> 47) (rev p))"

text \<open>
  The directories \<open>os.makedirs\<close> creates on the way to its argument: every proper
  prefix that ends just before a separator.
\<close>

definition ancestors :: "str \<Rightarrow> str list" where
  "ancestors d = map (\<lambda>i. take i d) (filter (\<lambda>i. d ! i = 47) [1..<length d])"

text \<open>
  The format \<^verbatim>\<open>f"{idx:03}.jpg"\<close>: the decimal digits of the index, padded with zeros
  on the left to at least three characters.
\<close>

fun digits :: "nat \<Rightarrow> str" where
  "digits n = (if n < 10 then [48 + n] else digits (n div 10) @ [48 + n mod 10])"

declare digits.simps [simp del]

definition zero_pad3 :: "nat \<Rightarrow> str" where
  "zero_pad3 idx = replicate (3 - length (digits idx)) 48 @ digits idx"

definition image_file :: "str \<Rightarrow> nat \<Rightarrow> str" where
  "image_file output_dir idx = path_join output_dir (zero_pad3 idx @ ascii ''.jpg'')"

section \<open>Parsed pages\<close>

text \<open>
  The HTML parser is a library outside the program.  A parsed page is modelled by the
  answers to the five queries the program puts to it, each in document order:
  \<^item> \<open>title_tag\<close>: the text of \<^verbatim>\<open>select_one('h1.comics-detail__title')\<close>, if there is one;
  \<^item> \<open>author_tag\<close>: the text of \<^verbatim>\<open>select_one('h2.comics-detail__author')\<close>;
  \<^item> \<open>chapter_items\<close>: the elements of \<^verbatim>\<open>select('a.comics-chapters__item')\<close>, each with
    its \<open>href\<close> attribute and the text of its first \<open>span\<close>, where present;
  \<^item> \<open>img_tags\<close>: the elements of \<^verbatim>\<open>find_all('img')\<close> with their \<open>data-src\<close> and
    \<open>src\<close> attributes;
  \<^item> \<open>next_button\<close>: the element found by \<^verbatim>\<open>find('a', string=...)\<close> for the next-page
    label, with its \<open>href\<close> attribute.
\<close>

record chapter_item =
  item_href :: "str option"
  item_span :: "str option"

record img_tag =
  data_src :: "str option"
  src :: "str option"

record a_tag =
  href :: "str option"

record document =
  title_tag :: "str option"
  author_tag :: "str option"
  chapter_items :: "chapter_item list"
  img_tags :: "img_tag list"
  next_button :: "a_tag option"

section \<open>The e-book under construction\<close>

record epub_html =
  html_title :: str
  html_file_name :: str
  html_content :: str

record epub_image =
  image_uid :: str
  image_file_name :: str
  image_media_type :: str
  image_content :: bytes

datatype epub_item = Html epub_html | Image epub_image | Ncx | Nav

record epub_link =
  link_href :: str
  link_title :: str
  link_uid :: str

datatype spine_entry = Spine_id str | Spine_html epub_html

record book =
  book_identifier :: str
  book_title :: str
  book_language :: str
  book_items :: "epub_item list"
  book_toc :: "epub_link list"
  book_spine :: "spine_entry list"

section \<open>The world and the state of a run\<close>

text \<open>
  Everything the program observes from outside is an oracle of the world:
  \<^item> \<open>net n url\<close> is the body of the reply to the request number \<open>n\<close> of the run (counted
    from the state's \<open>clock\<close>) when it asks for \<open>url\<close>; \<open>None\<close> stands for a
    \<open>RequestException\<close>, raised by the request itself or by \<open>raise_for_status\<close>;
  \<open>soup\<close> is the parser; and
  \<^item> \<open>disk_ok path\<close> tells whether the operating system lets the program create or write
    \<open>path\<close>; where it does not, the operation raises \<open>OSError\<close>.
  The state records the request counter, the directories and files that exist, and the
  trace of everything the program did, in order.
\<close>

datatype level = INFO | WARNING | ERROR

text \<open>
  One constructor for each message the program logs, with the URL, path or name that the
  message shows.
\<close>

datatype message =
    No_title str
  | Title_failed str
  | No_author str
  | Author_failed str
  | Chapters_failed str
  | Image_failed str
  | Page_failed str
  | Image_load_failed str
  | Epub_saved str
  | Epub_failed str
  | Detected_title str
  | Detected_author str

datatype event =
    Get str
  | Session_open
  | Session_get str
  | Session_close
  | Makedirs str
  | Write_file str bytes
  | Write_epub str book
  | Log level message

record world =
  net :: "nat \<Rightarrow> str \<Rightarrow> bytes option"
  soup :: "bytes \<Rightarrow> document"
  disk_ok :: "str \<Rightarrow> bool"

record state =
  clock :: nat
  dirs :: "str set"
  files :: "str \<rightharpoonup> bytes"
  epubs :: "str \<rightharpoonup> book"
  trace :: "event list"

datatype error = OSError

datatype 'a outcome = Return 'a | Raise error

definition emit :: "event \<Rightarrow> state \<Rightarrow> state" where
  "emit e st = st\<lparr>trace := trace st @ [e]\<rparr>"

definition request :: "world \<Rightarrow> (str \<Rightarrow> event) \<Rightarrow> str \<Rightarrow> state \<Rightarrow> bytes option \<times> state" where
  "request w ev url st = (net w (clock st) url, emit (ev url) (st\<lparr>clock := Suc (clock st)\<rparr>))"

definition requests_get :: "world \<Rightarrow> str \<Rightarrow> state \<Rightarrow> bytes option \<times> state" where
  "requests_get w url st = request w Get url st"

definition session_get :: "world \<Rightarrow> str \<Rightarrow> state \<Rightarrow> bytes option \<times> state" where
  "session_get w url st = request w Session_get url st"

text \<open>
  \<^verbatim>\<open>if not os.path.exists(output_dir): os.makedirs(output_dir)\<close>
\<close>

definition ensure_dir :: "world \<Rightarrow> str \<Rightarrow> state \<Rightarrow> unit outcome \<times> state" where
  "ensure_dir w d st =
     (if d \<in> dirs st then (Return (), st)
      else if disk_ok w d
        then (Return (), emit (Makedirs d) (st\<lparr>dirs := insert d (set (ancestors d) \<union> dirs st)\<rparr>))
      else (Raise OSError, st))"

text \<open>
  \<^verbatim>\<open>with open(file_path, 'wb') as f: f.write(image_response.content)\<close>
\<close>

definition write_file :: "world \<Rightarrow> str \<Rightarrow> bytes \<Rightarrow> state \<Rightarrow> unit outcome \<times> state" where
  "write_file w p b st =
     (if disk_ok w p then (Return (), emit (Write_file p b) (st\<lparr>files := (files st)(p \<mapsto> b)\<rparr>))
      else (Raise OSError, st))"

section \<open>Reading the index page\<close>

text \<open>
  \<^verbatim>\<open>
  def fetch_manga_title(index_url):
      try:
          response = requests.get(index_url)
          response.raise_for_status()
          soup = BeautifulSoup(response.content, 'html.parser')
          title_tag = soup.select_one('h1.comics-detail__title')
          if title_tag:
              return title_tag.text.strip()
          else:
              logging.warning(...)
              return <unknown manga>
      except requests.exceptions.RequestException as e:
          logging.error(...)
          return <unknown manga>
  \<close>
  \<open>fetch_manga_author\<close> is the same function on the author heading.
\<close>

definition fetch_manga_title :: "world \<Rightarrow> str \<Rightarrow> state \<Rightarrow> str \<times> state" where
  "fetch_manga_title w index_url st =
     (case requests_get w index_url st of
        (Some content, st1) \<Rightarrow>
          (case title_tag (soup w content) of
             Some text \<Rightarrow> (strip text, st1)
           | None \<Rightarrow> (unknown_manga, emit (Log WARNING (No_title index_url)) st1))
      | (None, st1) \<Rightarrow> (unknown_manga, emit (Log ERROR (Title_failed index_url)) st1))"

definition fetch_manga_author :: "world \<Rightarrow> str \<Rightarrow> state \<Rightarrow> str \<times> state" where
  "fetch_manga_author w index_url st =
     (case requests_get w index_url st of
        (Some content, st1) \<Rightarrow>
          (case author_tag (soup w content) of
             Some text \<Rightarrow> (strip text, st1)
           | None \<Rightarrow> (unknown_author, emit (Log WARNING (No_author index_url)) st1))
      | (None, st1) \<Rightarrow> (unknown_author, emit (Log ERROR (Author_failed index_url)) st1))"

text \<open>
  \<^verbatim>\<open>
  chapter_data = []
  for chapter in chapters:
      href = chapter.get('href')
      title = chapter.select_one('span').text if chapter.select_one('span') else <unknown chapter>
      if href:
          chapter_data.append((title, f"https://www.baozimh.com{href}"))
  \<close>
  \<open>if href\<close> is false for a missing attribute and for an empty one.
\<close>

fun for_chapter :: "chapter_item list \<Rightarrow> (str \<times> str) list \<Rightarrow> (str \<times> str) list" where
  "for_chapter [] chapter_data = chapter_data"
| "for_chapter (chapter # chapters) chapter_data =
     (let title = (case item_span chapter of Some text \<Rightarrow> text | None \<Rightarrow> unknown_chapter)
      in case item_href chapter of
           None \<Rightarrow> for_chapter chapters chapter_data
         | Some h \<Rightarrow>
             if h \<noteq> [] then for_chapter chapters (chapter_data @ [(title, origin @ h)])
             else for_chapter chapters chapter_data)"

definition fetch_chapter_links_and_titles ::
  "world \<Rightarrow> str \<Rightarrow> state \<Rightarrow> (str \<times> str) list \<times> state" where
  "fetch_chapter_links_and_titles w index_url st =
     (case requests_get w index_url st of
        (Some content, st1) \<Rightarrow> (for_chapter (chapter_items (soup w content)) [], st1)
      | (None, st1) \<Rightarrow> ([], emit (Log ERROR (Chapters_failed index_url)) st1))"

section \<open>Downloading the images of a chapter\<close>

text \<open>
  \<^verbatim>\<open>
  image_urls = [
      img['data-src'] if 'data-src' in img.attrs else img['src']
      for img in images if 'src' in img.attrs or 'data-src' in img.attrs
  ]
  \<close>
\<close>

definition image_urls :: "document \<Rightarrow> str list" where
  "image_urls doc =
     map (\<lambda>img. case data_src img of Some u \<Rightarrow> u | None \<Rightarrow> the (src img))
       (filter (\<lambda>img. src img \<noteq> None \<or> data_src img \<noteq> None) (img_tags doc))"

text \<open>
  \<^verbatim>\<open>
  for idx, url in enumerate(image_urls, start=len(image_paths) + 1):
      try:
          image_response = session.get(url)
          image_response.raise_for_status()
          file_path = os.path.join(output_dir, f"{idx:03}.jpg")
          with open(file_path, 'wb') as f:
              f.write(image_response.content)
          image_paths.append(file_path)
      except requests.exceptions.RequestException as e:
          logging.error(...)
  \<close>
  The handler catches request errors only: an \<open>OSError\<close> from writing the file leaves
  the loop and the function.
\<close>

fun for_image ::
  "world \<Rightarrow> str \<Rightarrow> nat \<Rightarrow> str list \<Rightarrow> str list \<Rightarrow> state \<Rightarrow> str list outcome \<times> state" where
  "for_image w output_dir idx [] image_paths st = (Return image_paths, st)"
| "for_image w output_dir idx (url # urls) image_paths st =
     (case session_get w url st of
        (None, st1) \<Rightarrow>
          for_image w output_dir (Suc idx) urls image_paths
            (emit (Log ERROR (Image_failed url)) st1)
      | (Some content, st1) \<Rightarrow>
          (let file_path = image_file output_dir idx
           in case write_file w file_path content st1 of
                (Raise e, st2) \<Rightarrow> (Raise e, st2)
              | (Return u, st2) \<Rightarrow>
                  for_image w output_dir (Suc idx) urls (image_paths @ [file_path]) st2))"

text \<open>
  \<^verbatim>\<open>
  next_button = soup.find('a', string=<next page>)
  if next_button and 'href' in next_button.attrs:
      current_url = f"https://www.baozimh.com{next_button['href']}"
  else:
      current_url = None
  \<close>
\<close>

definition next_url :: "document \<Rightarrow> str option" where
  "next_url doc =
     (case next_button doc of
        None \<Rightarrow> None
      | Some button \<Rightarrow> (case href button of None \<Rightarrow> None | Some h \<Rightarrow> Some (origin @ h)))"

text \<open>
  The loop \<open>while current_url:\<close> follows next-page links for as long as the site
  offers them, so it need not end.  The model gives it fuel, one unit for each page, and
  returns \<open>None\<close> when the fuel runs out before the loop ends.  The loop condition is
  false for \<open>None\<close> and for the empty string.  A page that cannot be fetched is logged
  and ends the loop with the paths collected so far; an \<open>OSError\<close> from creating the
  directory or writing a file is not caught.
\<close>

fun while_current_url ::
  "nat \<Rightarrow> world \<Rightarrow> str \<Rightarrow> str option \<Rightarrow> str list \<Rightarrow> state \<Rightarrow> (str list outcome \<times> state) option" where
  "while_current_url fuel w output_dir None image_paths st = Some (Return image_paths, st)"
| "while_current_url 0 w output_dir (Some current_url) image_paths st =
     (if current_url = [] then Some (Return image_paths, st) else None)"
| "while_current_url (Suc fuel) w output_dir (Some current_url) image_paths st =
     (if current_url = [] then Some (Return image_paths, st)
      else case session_get w current_url st of
        (None, st1) \<Rightarrow>
          while_current_url fuel w output_dir None image_paths
            (emit (Log ERROR (Page_failed current_url)) st1)
      | (Some content, st1) \<Rightarrow>
          (case ensure_dir w output_dir st1 of
             (Raise e, st2) \<Rightarrow> Some (Raise e, st2)
           | (Return u, st2) \<Rightarrow>
               (case for_image w output_dir (length image_paths + 1)
                       (image_urls (soup w content)) image_paths st2 of
                  (Raise e, st3) \<Rightarrow> Some (Raise e, st3)
                | (Return image_paths', st3) \<Rightarrow>
                    while_current_url fuel w output_dir (next_url (soup w content))
                      image_paths' st3)))"

definition download_images ::
  "nat \<Rightarrow> world \<Rightarrow> str \<Rightarrow> str \<Rightarrow> state \<Rightarrow> (str list outcome \<times> state) option" where
  "download_images fuel w chapter_url output_dir st =
     while_current_url fuel w output_dir (Some chapter_url) [] st"

section \<open>Building the archive of a chapter\<close>

text \<open>
  \<^verbatim>\<open>
  content = ""
  for img_path in image_paths:
      img_tag = f'<img src="{os.path.basename(img_path)}" alt="{volume_title}" style="max-width:100%;"/>'
      content += img_tag + "<br>"
  \<close>
\<close>

definition img_element :: "str \<Rightarrow> str \<Rightarrow> str" where
  "img_element volume_title img_path =
     ascii ''<img src='' @ [34] @ basename img_path @ [34] @ ascii '' alt='' @ [34] @
     volume_title @ [34] @ ascii '' style='' @ [34] @ ascii ''max-width:100%;'' @ [34] @
     ascii ''/>''"

fun for_img_path :: "str \<Rightarrow> str list \<Rightarrow> str \<Rightarrow> str" where
  "for_img_path volume_title [] content = content"
| "for_img_path volume_title (img_path # image_paths) content =
     for_img_path volume_title image_paths
       (content @ img_element volume_title img_path @ ascii ''<br>'')"

text \<open>
  \<^verbatim>\<open>
  for image_path in image_paths:
      try:
          with open(image_path, 'rb') as img_file:
              image = epub.EpubItem(uid=os.path.basename(image_path),
                  file_name=os.path.basename(image_path),
                  media_type="image/jpeg", content=img_file.read())
              book.add_item(image)
      except Exception as e:
          logging.error(...)
  \<close>
  A path with no readable file (\<open>files st path = None\<close>) is logged and skipped.
\<close>

fun for_image_path :: "str list \<Rightarrow> book \<Rightarrow> state \<Rightarrow> book \<times> state" where
  "for_image_path [] b st = (b, st)"
| "for_image_path (image_path # image_paths) b st =
     (case files st image_path of
        Some bytes \<Rightarrow>
          for_image_path image_paths
            (b\<lparr>book_items := book_items b @
               [Image \<lparr>image_uid = basename image_path, image_file_name = basename image_path,
                       image_media_type = ascii ''image/jpeg'', image_content = bytes\<rparr>]\<rparr>) st
      | None \<Rightarrow>
          for_image_path image_paths b (emit (Log ERROR (Image_load_failed image_path)) st))"

text \<open>
  \<^verbatim>\<open>
  try:
      epub.write_epub(epub_file, book)
      logging.info(...)
  except Exception as e:
      logging.error(...)
  \<close>
\<close>

definition write_epub :: "world \<Rightarrow> str \<Rightarrow> book \<Rightarrow> state \<Rightarrow> state" where
  "write_epub w epub_file b st =
     (if disk_ok w epub_file
      then emit (Log INFO (Epub_saved epub_file))
             (emit (Write_epub epub_file b) (st\<lparr>epubs := (epubs st)(epub_file \<mapsto> b)\<rparr>))
      else emit (Log ERROR (Epub_failed epub_file)) st)"

definition epub_path :: "str \<Rightarrow> str \<Rightarrow> str \<Rightarrow> str" where
  "epub_path output_dir manga_title volume_title =
     path_join output_dir (manga_title @ ascii ''_'' @ volume_title @ ascii ''.epub'')"

text \<open>
  The part of \<open>create_volume_epub\<close> that builds the book in memory: the identifier,
  title and language, the one content document, the embedded images, the table of
  contents, the two navigation items and the spine.
\<close>

definition build_book :: "str \<Rightarrow> str \<Rightarrow> str list \<Rightarrow> state \<Rightarrow> book \<times> state" where
  "build_book manga_title volume_title image_paths st =
     (let chapter = \<lparr>html_title = volume_title,
                     html_file_name = volume_title @ ascii ''.xhtml'',
                     html_content = for_img_path volume_title image_paths []\<rparr>;
          book0 = \<lparr>book_identifier = manga_title @ ascii ''-'' @ volume_title,
                   book_title = manga_title @ ascii '' '' @ volume_title,
                   book_language = ascii ''zh'',
                   book_items = [Html chapter], book_toc = [], book_spine = []\<rparr>;
          (book1, st1) = for_image_path image_paths book0 st
      in (book1\<lparr>book_toc := [\<lparr>link_href = html_file_name chapter,
                                   link_title = html_title chapter,
                                   link_uid = html_title chapter\<rparr>],
                  book_items := book_items book1 @ [Ncx, Nav],
                  book_spine := [Spine_id (ascii ''nav''), Spine_html chapter]\<rparr>, st1))"

text \<open>
  The rest of it: make sure the output directory exists (an \<open>OSError\<close> here is not
  caught) and write the archive (any error here is caught and logged).
\<close>

definition create_volume_epub ::
  "world \<Rightarrow> str \<Rightarrow> str \<Rightarrow> str list \<Rightarrow> str \<Rightarrow> state \<Rightarrow> unit outcome \<times> state" where
  "create_volume_epub w manga_title volume_title image_paths output_dir st =
     (let (b, st1) = build_book manga_title volume_title image_paths st
      in case ensure_dir w output_dir st1 of
           (Raise e, st2) \<Rightarrow> (Raise e, st2)
         | (Return u, st2) \<Rightarrow>
             (Return (), write_epub w (epub_path output_dir manga_title volume_title) b st2))"

section \<open>The orchestrator\<close>

text \<open>
  \<^verbatim>\<open>
  for title, chapter_url in chapters:
      safe_title = slugify_filename(title)
      temp_image_dir = os.path.join(OUTPUT_DIR, "temp_images", safe_title)
      image_paths = download_images(chapter_url, temp_image_dir, session)
      create_volume_epub(manga_title, title, image_paths, OUTPUT_DIR)
  \<close>
\<close>

fun for_title_chapter_url ::
  "nat \<Rightarrow> world \<Rightarrow> str \<Rightarrow> str \<Rightarrow> (str \<times> str) list \<Rightarrow> state \<Rightarrow> (unit outcome \<times> state) option" where
  "for_title_chapter_url fuel w manga_title OUTPUT_DIR [] st = Some (Return (), st)"
| "for_title_chapter_url fuel w manga_title OUTPUT_DIR ((title, chapter_url) # chapters) st =
     (let safe_title = slugify_filename title;
          temp_image_dir = path_join (path_join OUTPUT_DIR (ascii ''temp_images'')) safe_title
      in case download_images fuel w chapter_url temp_image_dir st of
           None \<Rightarrow> None
         | Some (Raise e, st1) \<Rightarrow> Some (Raise e, st1)
         | Some (Return image_paths, st1) \<Rightarrow>
             (case create_volume_epub w manga_title title image_paths OUTPUT_DIR st1 of
                (Raise e, st2) \<Rightarrow> Some (Raise e, st2)
              | (Return u, st2) \<Rightarrow>
                  for_title_chapter_url fuel w manga_title OUTPUT_DIR chapters st2))"

text \<open>
  \<^verbatim>\<open>
  def download_manga(index_url):
      manga_title = fetch_manga_title(index_url)
      manga_author = fetch_manga_author(index_url)
      logging.info(...); logging.info(...)
      OUTPUT_DIR = f"./{manga_title} - {manga_author}"
      chapters = fetch_chapter_links_and_titles(index_url)
      with requests.Session() as session:
          for title, chapter_url in chapters: ...
  \<close>
  The \<open>with\<close> block closes the session on the way out, also when an exception passes
  through it.  The fuel is the page budget of each chapter.
\<close>

definition output_dir_of :: "str \<Rightarrow> str \<Rightarrow> str" where
  "output_dir_of manga_title manga_author =
     ascii ''./'' @ manga_title @ ascii '' - '' @ manga_author"

definition download_manga :: "nat \<Rightarrow> world \<Rightarrow> str \<Rightarrow> state \<Rightarrow> (unit outcome \<times> state) option" where
  "download_manga fuel w index_url st =
     (let (manga_title, st1) = fetch_manga_title w index_url st;
          (manga_author, st2) = fetch_manga_author w index_url st1;
          st3 = emit (Log INFO (Detected_author manga_author))
                  (emit (Log INFO (Detected_title manga_title)) st2);
          OUTPUT_DIR = output_dir_of manga_title manga_author;
          (chapters, st4) = fetch_chapter_links_and_titles w index_url st3
      in case for_title_chapter_url fuel w manga_title OUTPUT_DIR chapters (emit Session_open st4) of
           None \<Rightarrow> None
         | Some (r, st5) \<Rightarrow> Some (r, emit Session_close st5))"

section \<open>Vocabulary of the properties\<close>

text \<open>
  A chapter entry has a link target when its \<open>href\<close> attribute is present and not empty.
  The chapter reference of such an entry pairs its label (the fixed label when it has no
  \<open>span\<close>) with its link target appended to the site origin.
\<close>

definition has_link_target :: "chapter_item \<Rightarrow> bool" where
  "has_link_target c = (case item_href c of None \<Rightarrow> False | Some h \<Rightarrow> h \<noteq> [])"

definition chapter_ref :: "chapter_item \<Rightarrow> str \<times> str" where
  "chapter_ref c =
     (case item_span c of None \<Rightarrow> unknown_chapter | Some text \<Rightarrow> text,
      origin @ (case item_href c of None \<Rightarrow> [] | Some h \<Rightarrow> h))"

text \<open>The file names of the images embedded in a book, in order.\<close>

fun embedded :: "epub_item list \<Rightarrow> str list" where
  "embedded [] = []"
| "embedded (Image i # its) = image_file_name i # embedded its"
| "embedded (it # its) = embedded its"

text \<open>The content documents of a book, in order.\<close>

fun documents :: "epub_item list \<Rightarrow> epub_html list" where
  "documents [] = []"
| "documents (Html h # its) = h # documents its"
| "documents (it # its) = documents its"

text \<open>What a trace shows: the files written, the URLs requested, the failures logged.\<close>

fun written :: "event list \<Rightarrow> (str \<times> bytes) list" where
  "written [] = []"
| "written (Write_file p b # evs) = (p, b) # written evs"
| "written (e # evs) = written evs"

fun session_gets :: "event list \<Rightarrow> str list" where
  "session_gets [] = []"
| "session_gets (Session_get u # evs) = u # session_gets evs"
| "session_gets (e # evs) = session_gets evs"

fun is_request :: "event \<Rightarrow> bool" where
  "is_request (Get u) = True"
| "is_request (Session_get u) = True"
| "is_request e = False"

fun image_failed :: "event \<Rightarrow> bool" where
  "image_failed (Log l (Image_failed u)) = True"
| "image_failed e = False"

text \<open>
  The events that may occur while the session is open: anything but a request outside
  the session and the opening and closing of a session.
\<close>

fun in_session :: "event \<Rightarrow> bool" where
  "in_session (Get u) = False"
| "in_session Session_open = False"
| "in_session Session_close = False"
| "in_session e = True"

text \<open>The events of a run from state \<open>st\<close> to state \<open>st'\<close>.\<close>

definition events :: "state \<Rightarrow> state \<Rightarrow> event list" where
  "events st st' = drop (length (trace st)) (trace st')"


section \<open>A small site\<close>

text \<open>
  A concrete world for evaluating the program.  The index page lists two chapters.
  The first has two pages, with images \<open>i1\<close>, \<open>i2\<close> and then \<open>i3\<close>; the second has
  one page with image \<open>i3\<close>.  Two further pages are not linked from the index: one with five images of
  which the third cannot be fetched, one with two images of which the first cannot be
  fetched.  The site answers every request for a URL in the same way.
\<close>

definition index_url :: str where
  "index_url = origin @ ascii ''/x''"

definition empty_doc :: document where
  "empty_doc = \<lparr>title_tag = None, author_tag = None, chapter_items = [], img_tags = [],
                 next_button = None\<rparr>"

definition img :: "string \<Rightarrow> img_tag" where
  "img u = \<lparr>data_src = None, src = Some (ascii u)\<rparr>"

definition site_soup :: "bytes \<Rightarrow> document" where
  "site_soup content =
     (if content = ''I'' then
        empty_doc\<lparr>title_tag := Some (ascii '' M ''), author_tag := Some (ascii ''A''),
          chapter_items := [\<lparr>item_href = Some (ascii ''/1''), item_span = Some (ascii ''Ch 1?'')\<rparr>,
                            \<lparr>item_href = Some (ascii ''/2''), item_span = None\<rparr>]\<rparr>
      else if content = ''P'' then
        empty_doc\<lparr>img_tags := [\<lparr>data_src = Some (ascii ''i1''), src = Some (ascii ''x'')\<rparr>, img ''i2''],
          next_button := Some \<lparr>href = Some (ascii ''/1b'')\<rparr>\<rparr>
      else if content = ''Q'' then empty_doc\<lparr>img_tags := [img ''i3'']\<rparr>
      else if content = ''E'' then empty_doc\<lparr>img_tags := [img ''i3'']\<rparr>
      else if content = ''R'' then
        empty_doc\<lparr>img_tags := [img ''i1'', img ''i2'', img ''j'', img ''i3'', img ''i1'']\<rparr>
      else if content = ''S'' then empty_doc\<lparr>img_tags := [img ''j'', img ''i1'']\<rparr>
      else empty_doc)"

definition site_net :: "str \<Rightarrow> bytes option" where
  "site_net url =
     map_of [(index_url, ''I''), (origin @ ascii ''/1'', ''P''), (origin @ ascii ''/1b'', ''Q''),
             (origin @ ascii ''/2'', ''E''), (origin @ ascii ''/3'', ''R''),
             (origin @ ascii ''/4'', ''S''),
             (ascii ''i1'', ''a''), (ascii ''i2'', ''b''), (ascii ''i3'', ''c'')] url"

definition site :: world where
  "site = \<lparr>net = (\<lambda>n. site_net), soup = site_soup, disk_ok = (\<lambda>p. True)\<rparr>"


text \<open>
  The same site on a disk that refuses to create the image directory of the first
  chapter.
\<close>

definition site_on_bad_disk :: world where
  "site_on_bad_disk = site\<lparr>disk_ok := (\<lambda>p. p \<noteq> ascii ''./M - A/temp_images/Ch_1'')\<rparr>"


definition start :: state where
  "start = \<lparr>clock = 0, dirs = {}, files = Map.empty, epubs = Map.empty, trace = []\<rparr>"


section \<open>Properties of the file-name sanitizer\<close>

lemma underscore_plain: "\<not> is_space underscore" "underscore \<notin> reserved"
  by (simp_all add: underscore_def is_space_def reserved_def)

lemma space_not_reserved: "is_space c \<Longrightarrow> c \<notin> reserved"
  by (auto simp: is_space_def reserved_def)

lemma sub_spaces_no_space: "c \<in> set (sub_spaces s) \<Longrightarrow> \<not> is_space c"
  by (induction s rule: sub_spaces.induct) (auto simp: underscore_plain split: if_splits)

lemma set_sub_spaces: "set (sub_spaces s) \<subseteq> insert underscore (set s)"
proof (induction s rule: sub_spaces.induct)
  case 1
  show ?case by simp
next
  case (2 c cs)
  have "set (dropWhile is_space cs) \<subseteq> set cs"
    by (auto dest: set_dropWhileD)
  with 2 show ?case by (auto split: if_splits)
qed

lemma sub_spaces_id: "\<forall>c\<in>set s. \<not> is_space c \<Longrightarrow> sub_spaces s = s"
  by (induction s) auto

lemma sub_reserved_id: "\<forall>c\<in>set s. c \<notin> reserved \<Longrightarrow> sub_reserved s = s"
  by (simp add: sub_reserved_def)

lemma sub_reserved_clean: "c \<in> set (sub_reserved s) \<Longrightarrow> c \<notin> reserved"
  by (simp add: sub_reserved_def)

lemma slugify_clean:
  assumes "c \<in> set (slugify_filename t)"
  shows "c \<notin> reserved" and "\<not> is_space c"
proof -
  from assms have "c \<in> insert underscore (set (sub_reserved t))"
    using set_sub_spaces unfolding slugify_filename_def by blast
  then show "c \<notin> reserved"
    using underscore_plain(2) sub_reserved_clean by auto
  from assms show "\<not> is_space c"
    unfolding slugify_filename_def by (rule sub_spaces_no_space)
qed

lemma slugify_fixed:
  assumes "\<forall>c\<in>set t. c \<notin> reserved \<and> \<not> is_space c"
  shows "slugify_filename t = t"
  using assms by (simp add: slugify_filename_def sub_reserved_id sub_spaces_id)

lemma sub_spaces_run:
  assumes "w \<noteq> []" "\<forall>c\<in>set w. is_space c" "v = [] \<or> \<not> is_space (hd v)"
  shows "sub_spaces (w @ v) = underscore # sub_spaces v"
proof -
  from assms(1) obtain c w' where w: "w = c # w'" by (cases w) auto
  have "dropWhile is_space (w' @ v) = dropWhile is_space v"
    using assms(2) w by (simp add: dropWhile_append2)
  also have "\<dots> = v" using assms(3) by (cases v) auto
  finally show ?thesis using assms(2) w by simp
qed

lemma sub_spaces_append:
  assumes "u = [] \<or> \<not> is_space (last u)"
  shows "sub_spaces (u @ x) = sub_spaces u @ sub_spaces x"
  using assms
proof (induction u rule: sub_spaces.induct)
  case 1
  show ?case by simp
next
  case (2 c cs)
  show ?case
  proof (cases "is_space c")
    case False
    with 2 show ?thesis by (auto split: if_splits)
  next
    case True
    with 2(3) have ne: "cs \<noteq> []" and l: "\<not> is_space (last cs)" by (auto split: if_splits)
    then have ex: "\<exists>y\<in>set cs. \<not> is_space y" using last_in_set by blast
    then have d: "dropWhile is_space (cs @ x) = dropWhile is_space cs @ x"
      by (auto simp: dropWhile_append1)
    from ex have dne: "dropWhile is_space cs \<noteq> []" by (simp add: dropWhile_eq_Nil_conv)
    obtain p where "cs = p @ dropWhile is_space cs"
      by (metis takeWhile_dropWhile_id)
    then have "last (dropWhile is_space cs) = last cs" using dne by (metis last_appendR)
    with 2(1)[OF True] l dne have "sub_spaces (dropWhile is_space cs @ x)
        = sub_spaces (dropWhile is_space cs) @ sub_spaces x" by simp
    with True d show ?thesis by simp
  qed
qed

lemma slugify_run:
  assumes "w \<noteq> []" "\<forall>c\<in>set w. is_space c"
    and "sub_reserved u = [] \<or> \<not> is_space (last (sub_reserved u))"
    and "sub_reserved v = [] \<or> \<not> is_space (hd (sub_reserved v))"
  shows "slugify_filename (u @ w @ v) = slugify_filename u @ underscore # slugify_filename v"
proof -
  have w: "sub_reserved w = w" using assms(2) space_not_reserved by (simp add: sub_reserved_def)
  have "sub_reserved (u @ w @ v) = sub_reserved u @ w @ sub_reserved v"
    using w by (simp add: sub_reserved_def)
  then show ?thesis
    unfolding slugify_filename_def
    using sub_spaces_append[OF assms(3)] sub_spaces_run[OF assms(1,2,4)] by simp
qed

lemma slugify_drop:
  "c \<in> reserved \<Longrightarrow> slugify_filename (u @ c # v) = slugify_filename (u @ v)"
  by (simp add: slugify_filename_def sub_reserved_def)

lemma slugify_example:
  "slugify_filename (ascii ''Ch 1: The/Beginning?'') = ascii ''Ch_1_TheBeginning''"
  by (simp add: slugify_filename_def sub_reserved_def reserved_def ascii_def is_space_def underscore_def)


text \<open>
  Claim C8.  \<open>slugify_filename\<close> is a total function on strings.  On the example title it
  returns \<open>Ch_1_TheBeginning\<close>.  For every title \<open>t\<close> the result contains no reserved
  character and no white space; deleting one reserved character \<open>r\<close> from the input does
  not change the result (every occurrence is removed); a maximal run \<open>w\<close> of white space
  (maximal in the title after the reserved characters are gone) becomes exactly one
  underscore between the results of the two sides; and a title with neither reserved
  characters nor white space is returned unchanged.
\<close>

theorem slugify_filename_spec:
  "slugify_filename (ascii ''Ch 1: The/Beginning?'') = ascii ''Ch_1_TheBeginning'' \<and>
   (\<forall>c\<in>set (slugify_filename t). c \<notin> reserved \<and> \<not> is_space c) \<and>
   (r \<in> reserved \<longrightarrow> slugify_filename (u @ r # v) = slugify_filename (u @ v)) \<and>
   (w \<noteq> [] \<and> (\<forall>c\<in>set w. is_space c) \<and>
      (sub_reserved u = [] \<or> \<not> is_space (last (sub_reserved u))) \<and>
      (sub_reserved v = [] \<or> \<not> is_space (hd (sub_reserved v))) \<longrightarrow>
      slugify_filename (u @ w @ v) = slugify_filename u @ underscore # slugify_filename v) \<and>
   ((\<forall>c\<in>set t. c \<notin> reserved \<and> \<not> is_space c) \<longrightarrow> slugify_filename t = t)"
  using slugify_example slugify_clean[of _ t] slugify_drop[of r u v] slugify_run[of w u v]
    slugify_fixed[of t]
  by blast

theorem slugify_filename_spec_witness:
  "list_all (\<lambda>c. c \<notin> reserved \<and> \<not> is_space c) (slugify_filename (ascii ''a?  b'')) \<and>
   slugify_filename (ascii ''a:'' @ 47 # ascii ''b'') = slugify_filename (ascii ''a:'' @ ascii ''b'') \<and>
   slugify_filename (ascii ''a:'' @ [32, 9, 12288] @ ascii ''b'') =
     slugify_filename (ascii ''a:'') @ underscore # slugify_filename (ascii ''b'')"
  using slugify_filename_spec[of "ascii ''a?  b''" 47 "ascii ''a:''" "ascii ''b''" "[32, 9, 12288]"]
  by (simp add: sub_reserved_def reserved_def ascii_def is_space_def list_all_iff)

text \<open>
  Claim C10.  The sanitizer is idempotent: its result holds neither reserved characters
  nor white space (the underscore is neither), so a second pass changes nothing.
\<close>

theorem slugify_filename_idempotent:
  "slugify_filename (slugify_filename t) = slugify_filename t"
  by (rule slugify_fixed) (auto dest: slugify_clean)

section \<open>Evaluating the example site\<close>

lemmas site_simps = site_def site_net_def site_soup_def index_url_def origin_def ascii_def
  empty_doc_def img_def start_def

section \<open>The chapter list\<close>

lemma for_chapter_eq:
  "for_chapter cs acc = acc @ map chapter_ref (filter has_link_target cs)"
  by (induction cs arbitrary: acc)
     (auto simp: has_link_target_def chapter_ref_def Let_def split: option.splits)

text \<open>
  Claim C7.  The chapter extractor never raises.  When the index page cannot be fetched
  it returns the empty list.  Otherwise it returns, in document order, the chapter
  reference of every entry that has a link target and skips the others; a reference has
  the entry's label, or the fixed label when the entry has no \<open>span\<close>, and the link
  target appended to the site origin.  In particular, when all \<open>N\<close> entries have link
  targets, the result has \<open>N\<close> references and the \<open>i\<close>-th one belongs to the
  \<open>i\<close>-th entry.
\<close>

theorem fetch_chapter_links_and_titles_spec:
  "fst (fetch_chapter_links_and_titles w url st) =
     (case net w (clock st) url of
        None \<Rightarrow> []
      | Some content \<Rightarrow> map chapter_ref (filter has_link_target (chapter_items (soup w content)))) \<and>
   (\<forall>content. net w (clock st) url = Some content \<and>
       list_all has_link_target (chapter_items (soup w content)) \<longrightarrow>
       length (fst (fetch_chapter_links_and_titles w url st)) =
         length (chapter_items (soup w content)) \<and>
       (\<forall>i < length (chapter_items (soup w content)).
          fst (fetch_chapter_links_and_titles w url st) ! i =
            chapter_ref (chapter_items (soup w content) ! i)))"
  by (auto simp: fetch_chapter_links_and_titles_def requests_get_def request_def for_chapter_eq
        list_all_iff split: option.splits)

theorem fetch_chapter_links_and_titles_spec_witness:
  "net site (clock start) index_url = Some ''I'' \<and>
   list_all has_link_target (chapter_items (soup site ''I'')) \<and>
   fst (fetch_chapter_links_and_titles site index_url start) =
     [(ascii ''Ch 1?'', ascii ''https://www.baozimh.com/1''),
      (unknown_chapter, ascii ''https://www.baozimh.com/2'')] \<and>
   fst (fetch_chapter_links_and_titles (site\<lparr>net := \<lambda>n u. None\<rparr>) index_url start) = []"
  using fetch_chapter_links_and_titles_spec[of site index_url start]
    fetch_chapter_links_and_titles_spec[of "site\<lparr>net := \<lambda>n u. None\<rparr>" index_url start]
  by (simp add: site_simps has_link_target_def chapter_ref_def)

section \<open>The content document of an archive\<close>

lemma for_img_path_eq:
  "for_img_path v ps content =
     content @ concat (map (\<lambda>p. img_element v p @ ascii ''<br>'') ps)"
  by (induction ps arbitrary: content) auto

lemma embedded_snoc: "embedded (xs @ [Image i]) = embedded xs @ [image_file_name i]"
  by (induction xs rule: embedded.induct) auto

lemma documents_snoc: "documents (xs @ [Image i]) = documents xs"
  by (induction xs rule: documents.induct) auto

lemma embedded_nav: "embedded (xs @ [Ncx, Nav]) = embedded xs"
  by (induction xs rule: embedded.induct) auto

lemma documents_nav: "documents (xs @ [Ncx, Nav]) = documents xs"
  by (induction xs rule: documents.induct) auto

lemma for_image_path_items:
  "for_image_path ps b st = (b', st') \<Longrightarrow>
     embedded (book_items b') =
       embedded (book_items b) @ map basename (filter (\<lambda>p. files st p \<noteq> None) ps) \<and>
     documents (book_items b') = documents (book_items b) \<and>
     files st' = files st \<and> dirs st' = dirs st \<and> epubs st' = epubs st"
proof (induction ps arbitrary: b st)
  case Nil
  then show ?case by simp
next
  case (Cons p ps)
  show ?case
  proof (cases "files st p")
    case None
    with Cons.prems have "for_image_path ps b (emit (Log ERROR (Image_load_failed p)) st) = (b', st')"
      by simp
    from Cons.IH[OF this] None show ?thesis by (simp add: emit_def)
  next
    case (Some bytes)
    with Cons.prems Cons.IH show ?thesis by (fastforce simp: embedded_snoc documents_snoc)
  qed
qed

lemma build_book_items:
  assumes "build_book m v ps st = (b, st')"
  shows "documents (book_items b) =
           [\<lparr>html_title = v, html_file_name = v @ ascii ''.xhtml'',
             html_content = concat (map (\<lambda>p. img_element v p @ ascii ''<br>'') ps)\<rparr>]"
    and "embedded (book_items b) = map basename (filter (\<lambda>p. files st p \<noteq> None) ps)"
    and "dirs st' = dirs st" and "epubs st' = epubs st"
proof -
  let ?ch = "\<lparr>html_title = v, html_file_name = v @ ascii ''.xhtml'',
               html_content = for_img_path v ps []\<rparr>"
  let ?b0 = "\<lparr>book_identifier = m @ ascii ''-'' @ v, book_title = m @ ascii '' '' @ v,
               book_language = ascii ''zh'', book_items = [Html ?ch], book_toc = [],
               book_spine = []\<rparr>"
  obtain b1 st1 where r: "for_image_path ps ?b0 st = (b1, st1)" by fastforce
  with assms have b: "book_items b = book_items b1 @ [Ncx, Nav]" and st: "st' = st1"
    by (auto simp: build_book_def Let_def)
  from for_image_path_items[OF r]
  show "documents (book_items b) =
           [\<lparr>html_title = v, html_file_name = v @ ascii ''.xhtml'',
             html_content = concat (map (\<lambda>p. img_element v p @ ascii ''<br>'') ps)\<rparr>]"
    and "embedded (book_items b) = map basename (filter (\<lambda>p. files st p \<noteq> None) ps)"
    and "dirs st' = dirs st" and "epubs st' = epubs st"
    by (simp_all add: b st documents_nav embedded_nav for_img_path_eq)
qed

lemma create_volume_epub_written:
  assumes "od \<in> dirs st \<or> disk_ok w od" and "disk_ok w (epub_path od m v)"
  shows "epubs (snd (create_volume_epub w m v ps od st)) (epub_path od m v) =
           Some (fst (build_book m v ps st))"
proof -
  obtain b st1 where bb: "build_book m v ps st = (b, st1)" by fastforce
  from build_book_items(3)[OF bb] assms(1) have "od \<in> dirs st1 \<or> disk_ok w od" by simp
  then have "\<exists>st2. ensure_dir w od st1 = (Return (), st2)"
    by (cases "od \<in> dirs st1") (simp_all add: ensure_dir_def)
  then obtain st2 where e: "ensure_dir w od st1 = (Return (), st2)" ..
  with bb assms(2) show ?thesis
    by (simp add: create_volume_epub_def write_epub_def emit_def)
qed

text \<open>
  Claim C9.  For every list of image paths and every state of the disk, the book has
  exactly one content document, and its body is the concatenation, in input order, of
  one \<open>img\<close> element per path that names the path's base name, each followed by
  \<open><br>\<close>.  The embedded images are those of the paths that could be read, so a path
  that could not be read is referenced by the document and absent from the book.  When the
  output directory and the archive can be written, this book is what the archive file
  holds.
\<close>

theorem create_volume_epub_content:
  "documents (book_items (fst (build_book m v ps st))) =
     [\<lparr>html_title = v, html_file_name = v @ ascii ''.xhtml'',
       html_content = concat (map (\<lambda>p.
          ascii ''<img src='' @ [34] @ basename p @ [34] @ ascii '' alt='' @ [34] @ v @ [34] @
          ascii '' style='' @ [34] @ ascii ''max-width:100%;'' @ [34] @ ascii ''/>'' @
          ascii ''<br>'') ps)\<rparr>] \<and>
   embedded (book_items (fst (build_book m v ps st))) =
     map basename (filter (\<lambda>p. files st p \<noteq> None) ps) \<and>
   ((od \<in> dirs st \<or> disk_ok w od) \<and> disk_ok w (epub_path od m v) \<longrightarrow>
      epubs (snd (create_volume_epub w m v ps od st)) (epub_path od m v) =
        Some (fst (build_book m v ps st)))"
proof -
  obtain b st1 where bb: "build_book m v ps st = (b, st1)" by fastforce
  from build_book_items(1,2)[OF bb] create_volume_epub_written[of od st w m v ps]
  show ?thesis by (simp add: bb img_element_def)
qed

theorem create_volume_epub_content_witness:
  "disk_ok site (ascii ''o'') \<and> disk_ok site (epub_path (ascii ''o'') (ascii ''M'') (ascii ''V'')) \<and>
   epubs (snd (create_volume_epub site (ascii ''M'') (ascii ''V'') [ascii ''t/001.jpg'', ascii ''t/002.jpg'']
             (ascii ''o'') (start\<lparr>files := [ascii ''t/001.jpg'' \<mapsto> ''a'']\<rparr>)))
       (epub_path (ascii ''o'') (ascii ''M'') (ascii ''V'')) =
     Some (fst (build_book (ascii ''M'') (ascii ''V'') [ascii ''t/001.jpg'', ascii ''t/002.jpg'']
             (start\<lparr>files := [ascii ''t/001.jpg'' \<mapsto> ''a'']\<rparr>))) \<and>
   map html_content (documents (book_items (fst (build_book (ascii ''M'') (ascii ''V'')
       [ascii ''t/001.jpg'', ascii ''t/002.jpg''] (start\<lparr>files := [ascii ''t/001.jpg'' \<mapsto> ''a'']\<rparr>))))) =
     [ascii ''<img src='' @ [34] @ ascii ''001.jpg'' @ [34] @ ascii '' alt='' @ [34] @ ascii ''V'' @ [34] @
      ascii '' style='' @ [34] @ ascii ''max-width:100%;'' @ [34] @ ascii ''/><br>'' @
      ascii ''<img src='' @ [34] @ ascii ''002.jpg'' @ [34] @ ascii '' alt='' @ [34] @ ascii ''V'' @ [34] @
      ascii '' style='' @ [34] @ ascii ''max-width:100%;'' @ [34] @ ascii ''/><br>''] \<and>
   embedded (book_items (fst (build_book (ascii ''M'') (ascii ''V'')
       [ascii ''t/001.jpg'', ascii ''t/002.jpg''] (start\<lparr>files := [ascii ''t/001.jpg'' \<mapsto> ''a'']\<rparr>)))) =
     [ascii ''001.jpg'']"
  using create_volume_epub_content[of "ascii ''M''" "ascii ''V''"
      "[ascii ''t/001.jpg'', ascii ''t/002.jpg'']" "start\<lparr>files := [ascii ''t/001.jpg'' \<mapsto> ''a'']\<rparr>"
      "ascii ''o''" site]
  by (simp add: site_simps basename_def)

section \<open>The events of the download loops\<close>

lemma emit_simps:
  "trace (emit e st) = trace st @ [e]" "clock (emit e st) = clock st"
  "dirs (emit e st) = dirs st" "files (emit e st) = files st" "epubs (emit e st) = epubs st"
  by (simp_all add: emit_def)

lemma session_get_eq:
  "session_get w u st = (net w (clock st) u, emit (Session_get u) (st\<lparr>clock := Suc (clock st)\<rparr>))"
  by (simp add: session_get_def request_def)

lemma written_append: "written (xs @ ys) = written xs @ written ys"
  by (induction xs rule: written.induct) auto


lemma upt_shift: "[i..<i + Suc n] = i # [Suc i..<Suc i + n]"
  by (simp add: upt_conv_Cons del: upt_Suc)

lemma ensure_dir_cases:
  obtains (ok) st' evs where "ensure_dir w d st = (Return (), st')" "trace st' = trace st @ evs"
      "written evs = []" "session_gets evs = []" "\<forall>e\<in>set evs. in_session e \<and> \<not> image_failed e"
      "clock st' = clock st" "d \<in> dirs st'" "d \<in> dirs st \<or> disk_ok w d"
    | (fail) "ensure_dir w d st = (Raise OSError, st)" "d \<notin> dirs st" "\<not> disk_ok w d"
proof (cases "d \<in> dirs st")
  case True
  then have "ensure_dir w d st = (Return (), st)" by (simp add: ensure_dir_def)
  with True show ?thesis by (intro ok[where evs = "[]" and st' = st]) simp_all
next
  case False
  show ?thesis
  proof (cases "disk_ok w d")
    case True
    with False have "ensure_dir w d st =
      (Return (), emit (Makedirs d) (st\<lparr>dirs := insert d (set (ancestors d) \<union> dirs st)\<rparr>))"
      by (simp add: ensure_dir_def)
    with True show ?thesis
      by (intro ok[where evs = "[Makedirs d]"
            and st' = "emit (Makedirs d) (st\<lparr>dirs := insert d (set (ancestors d) \<union> dirs st)\<rparr>)"])
         (simp_all add: emit_simps)
  next
    case nd: False
    with False show ?thesis by (intro fail) (simp_all add: ensure_dir_def)
  qed
qed

lemma for_image_trace:
  "for_image w d idx urls paths st = (r, st') \<Longrightarrow>
    \<exists>evs. trace st' = trace st @ evs \<and> (\<forall>e\<in>set evs. in_session e) \<and>
      (\<forall>paths'. r = Return paths' \<longrightarrow> paths' = paths @ map fst (written evs) \<and>
         (\<not> list_ex image_failed evs \<longrightarrow>
            map fst (written evs) = map (image_file d) [idx..<idx + length urls]))"
proof (induction urls arbitrary: idx paths st)
  case Nil
  then show ?case by auto
next
  case (Cons u us)
  let ?st1 = "emit (Session_get u) (st\<lparr>clock := Suc (clock st)\<rparr>)"
  have t1: "trace ?st1 = trace st @ [Session_get u]" by (simp add: emit_simps)
  show ?case
  proof (cases "net w (clock st) u")
    case None
    let ?st2 = "emit (Log ERROR (Image_failed u)) ?st1"
    from Cons.prems None have "for_image w d (Suc idx) us paths ?st2 = (r, st')"
      by (simp add: session_get_eq)
    from Cons.IH[OF this] obtain evs where
      evs: "trace st' = trace ?st2 @ evs" "\<forall>e\<in>set evs. in_session e"
        "\<forall>paths'. r = Return paths' \<longrightarrow> paths' = paths @ map fst (written evs)"
      by blast
    let ?evs = "[Session_get u, Log ERROR (Image_failed u)] @ evs"
    have "trace st' = trace st @ ?evs" using evs(1) t1 by (simp add: emit_simps)
    moreover have "\<forall>e\<in>set ?evs. in_session e" using evs(2) by simp
    moreover have "written ?evs = written evs" by simp
    moreover have "list_ex image_failed ?evs" by simp
    ultimately show ?thesis using evs(3) by metis
  next
    case (Some content)
    let ?f = "image_file d idx"
    show ?thesis
    proof (cases "disk_ok w ?f")
      case False
      with Cons.prems Some have "r = Raise OSError" "st' = ?st1"
        by (simp_all add: session_get_eq write_file_def Let_def)
      with t1 show ?thesis by (intro exI[of _ "[Session_get u]"]) simp
    next
      case True
      let ?st2 = "emit (Write_file ?f content) (?st1\<lparr>files := (files ?st1)(?f \<mapsto> content)\<rparr>)"
      from Cons.prems Some True have "for_image w d (Suc idx) us (paths @ [?f]) ?st2 = (r, st')"
        by (simp add: session_get_eq write_file_def Let_def)
      from Cons.IH[OF this] obtain evs where
        evs: "trace st' = trace ?st2 @ evs" "\<forall>e\<in>set evs. in_session e"
          "\<forall>paths'. r = Return paths' \<longrightarrow> paths' = (paths @ [?f]) @ map fst (written evs) \<and>
             (\<not> list_ex image_failed evs \<longrightarrow>
               map fst (written evs) = map (image_file d) [Suc idx..<Suc idx + length us])"
        by blast
      let ?evs = "[Session_get u, Write_file ?f content] @ evs"
      have a: "trace st' = trace st @ ?evs" using evs(1) by (simp add: emit_simps)
      have b: "\<forall>e\<in>set ?evs. in_session e" using evs(2) by simp
      have c: "map fst (written ?evs) = ?f # map fst (written evs)" by simp
      have d: "list_ex image_failed ?evs = list_ex image_failed evs" by simp
      have e: "map (image_file d) [idx..<idx + length (u # us)] =
                 ?f # map (image_file d) [Suc idx..<Suc idx + length us]"
        using upt_shift[of idx "length us"] by simp
      show ?thesis
        apply (rule exI[of _ ?evs])
        apply (intro conjI a b)
        using evs(3) c d e apply (metis append.assoc append_Cons append_Nil)
        done
    qed
  qed
qed


lemma numbered_append:
  assumes "ps = map f [1..<Suc (length ps)]"
    and "ps' = ps @ map f [length ps + 1..<length ps + 1 + n]"
  shows "ps' = map f [1..<Suc (length ps')]"
proof -
  have len: "Suc (length ps') = Suc (length ps) + n" using assms(2) by simp
  have "[1..<Suc (length ps) + n] = [1..<Suc (length ps)] @ [Suc (length ps)..<Suc (length ps) + n]"
    by (rule upt_add_eq_append) simp
  then have "map f [1..<Suc (length ps) + n] =
      map f [1..<Suc (length ps)] @ map f [Suc (length ps)..<Suc (length ps) + n]"
    by (simp only: map_append)
  also have "\<dots> = ps @ map f [Suc (length ps)..<Suc (length ps) + n]"
    using assms(1) by (simp del: upt_Suc)
  also have "\<dots> = ps'" using assms(2) by (simp del: upt_Suc)
  finally show ?thesis by (simp only: len)
qed

lemma while_current_url_trace:
  "while_current_url fuel w d cur paths st = Some (r, st') \<Longrightarrow>
    \<exists>evs. trace st' = trace st @ evs \<and> (\<forall>e\<in>set evs. in_session e) \<and>
      (\<forall>paths'. r = Return paths' \<longrightarrow> paths' = paths @ map fst (written evs) \<and>
         (\<not> list_ex image_failed evs \<and> paths = map (image_file d) [1..<Suc (length paths)] \<longrightarrow>
            paths' = map (image_file d) [1..<Suc (length paths')]))"
proof (induction fuel arbitrary: cur paths st)
  case 0
  then have "r = Return paths \<and> st' = st"
    by (cases cur) (auto split: if_splits)
  then show ?case by (intro exI[of _ "[]"]) simp
next
  case (Suc fuel)
  show ?case
  proof (cases "cur = None \<or> cur = Some []")
    case True
    with Suc.prems have "r = Return paths \<and> st' = st" by auto
    then show ?thesis by (intro exI[of _ "[]"]) simp
  next
    case False
    then obtain u where u: "cur = Some u" "u \<noteq> []" by auto
    let ?st1 = "emit (Session_get u) (st\<lparr>clock := Suc (clock st)\<rparr>)"
    have t1: "trace ?st1 = trace st @ [Session_get u]" by (simp add: emit_simps)
    show ?thesis
    proof (cases "net w (clock st) u")
      case None
      with Suc.prems u have "r = Return paths" "st' = emit (Log ERROR (Page_failed u)) ?st1"
        by (simp_all add: session_get_eq)
      then show ?thesis
        by (intro exI[of _ "[Session_get u, Log ERROR (Page_failed u)]"]) (simp add: emit_simps)
    next
      case (Some content)
      show ?thesis
      proof (cases rule: ensure_dir_cases[of w d ?st1])
        case fail
        with Suc.prems u Some have "r = Raise OSError" "st' = ?st1"
          by (simp_all add: session_get_eq)
        with t1 show ?thesis by (intro exI[of _ "[Session_get u]"]) simp
      next
        case (ok st2 evs0)
        obtain r3 st3 where fi: "for_image w d (length paths + 1) (image_urls (soup w content))
            paths st2 = (r3, st3)" by fastforce
        from for_image_trace[OF fi] obtain evs1 where
          evs1: "trace st3 = trace st2 @ evs1" "\<forall>e\<in>set evs1. in_session e"
            "\<forall>paths'. r3 = Return paths' \<longrightarrow> paths' = paths @ map fst (written evs1) \<and>
              (\<not> list_ex image_failed evs1 \<longrightarrow> map fst (written evs1) =
                 map (image_file d) [length paths + 1..<length paths + 1 +
                    length (image_urls (soup w content))])"
          by blast
        have t3: "trace st3 = trace st @ [Session_get u] @ evs0 @ evs1"
          using evs1(1) ok(2) t1 by simp
        show ?thesis
        proof (cases r3)
          case (Raise e)
          with Suc.prems u Some ok(1) fi have "r = Raise e" "st' = st3"
            by (simp_all add: session_get_eq)
          with t3 ok(5) evs1(2) show ?thesis
            by (intro exI[of _ "[Session_get u] @ evs0 @ evs1"]) auto
        next
          case (Return paths1)
          with Suc.prems u Some ok(1) fi
          have "while_current_url fuel w d (next_url (soup w content)) paths1 st3 = Some (r, st')"
            by (simp add: session_get_eq)
          from Suc.IH[OF this] obtain evs2 where
            evs2: "trace st' = trace st3 @ evs2" "\<forall>e\<in>set evs2. in_session e"
              "\<forall>paths'. r = Return paths' \<longrightarrow> paths' = paths1 @ map fst (written evs2) \<and>
                (\<not> list_ex image_failed evs2 \<and>
                 paths1 = map (image_file d) [1..<Suc (length paths1)] \<longrightarrow>
                   paths' = map (image_file d) [1..<Suc (length paths')])"
            by blast
          let ?evs = "[Session_get u] @ evs0 @ evs1 @ evs2"
          have a: "trace st' = trace st @ ?evs" using evs2(1) t3 by simp
          have b: "\<forall>e\<in>set ?evs. in_session e" using ok(5) evs1(2) evs2(2) by auto
          have p1: "paths1 = paths @ map fst (written evs1)" using evs1(3) Return by simp
          have w: "written ?evs = written evs1 @ written evs2"
            using ok(3) by (simp add: written_append)
          have c: "paths' = paths @ map fst (written ?evs)" if "r = Return paths'" for paths'
            using that evs2(3) p1 w by simp
          have d: "paths' = map (image_file d) [1..<Suc (length paths')]"
            if "r = Return paths'" "\<not> list_ex image_failed ?evs"
               "paths = map (image_file d) [1..<Suc (length paths)]" for paths'
          proof -
            from that(2) have nf: "\<not> list_ex image_failed evs1" "\<not> list_ex image_failed evs2"
              by (auto simp: list_ex_iff)
            with evs1(3) Return have "paths1 = paths @ map (image_file d)
                [length paths + 1..<length paths + 1 + length (image_urls (soup w content))]"
              by simp
            with that(3) have "paths1 = map (image_file d) [1..<Suc (length paths1)]"
              by (rule numbered_append)
            with evs2(3) that(1) nf(2) show ?thesis by blast
          qed
          show ?thesis
            by (rule exI[of _ ?evs]) (use a b c d in blast)
        qed
      qed
    qed
  qed
qed

section \<open>Numbering of the image files\<close>

lemma replicate_small: "replicate 2 x = [x, x]" "replicate 1 x = [x]"
  by (simp_all add: numeral_2_eq_2)

lemmas run_simps = download_images_def session_get_eq emit_def ensure_dir_def write_file_def
  image_urls_def next_url_def image_file_def zero_pad3_def digits.simps path_join_def
  replicate_small Let_def events_def ancestors_def upt_conv_Cons

lemma image_file_Suc:
  "image_file d (Suc 0) = path_join d (ascii ''001.jpg'')"
  "image_file d (Suc (Suc 0)) = path_join d (ascii ''002.jpg'')"
  "image_file d (Suc (Suc (Suc 0))) = path_join d (ascii ''003.jpg'')"
  "image_file d (Suc (Suc (Suc (Suc 0)))) = path_join d (ascii ''004.jpg'')"
  "image_file d (Suc (Suc (Suc (Suc (Suc 0))))) = path_join d (ascii ''005.jpg'')"
  by (simp_all add: image_file_def zero_pad3_def digits.simps replicate_small ascii_def)




text \<open>
  Claim C3.  On a single page with five image URLs of which the third cannot be fetched
  and the others can, with a disk that accepts the directory and the four files,
  \<open>download_images\<close> returns normally with exactly the four paths \<open>001.jpg\<close>,
  \<open>002.jpg\<close>, \<open>004.jpg\<close> and \<open>005.jpg\<close> of the output directory; these are the
  files written, with the bodies of the four replies; and the failure of the third fetch
  is logged.
\<close>

theorem download_images_gap:
  assumes "url \<noteq> []" and "net w (clock st) url = Some page"
    and "image_urls (soup w page) = [u1, u2, u3, u4, u5]" and "next_url (soup w page) = None"
    and "net w (clock st + 1) u1 = Some b1" and "net w (clock st + 2) u2 = Some b2"
    and "net w (clock st + 3) u3 = None"
    and "net w (clock st + 4) u4 = Some b4" and "net w (clock st + 5) u5 = Some b5"
    and "d \<in> dirs st \<or> disk_ok w d"
    and "disk_ok w (path_join d (ascii ''001.jpg''))" and "disk_ok w (path_join d (ascii ''002.jpg''))"
    and "disk_ok w (path_join d (ascii ''004.jpg''))" and "disk_ok w (path_join d (ascii ''005.jpg''))"
  shows "\<exists>st'. download_images (Suc fuel) w url d st =
           Some (Return [path_join d (ascii ''001.jpg''), path_join d (ascii ''002.jpg''),
                         path_join d (ascii ''004.jpg''), path_join d (ascii ''005.jpg'')], st') \<and>
         written (events st st') =
           [(path_join d (ascii ''001.jpg''), b1), (path_join d (ascii ''002.jpg''), b2),
            (path_join d (ascii ''004.jpg''), b4), (path_join d (ascii ''005.jpg''), b5)] \<and>
         Log ERROR (Image_failed u3) \<in> set (events st st')"
proof (cases "d \<in> dirs st")
  case True
  with assms show ?thesis
    by (simp add: download_images_def session_get_eq emit_def ensure_dir_def write_file_def
          Let_def events_def image_file_Suc numeral_eq_Suc)
next
  case False
  with assms show ?thesis
    by (simp add: download_images_def session_get_eq emit_def ensure_dir_def write_file_def
          Let_def events_def image_file_Suc numeral_eq_Suc)
qed


theorem download_images_gap_witness:
  "net site (clock start + 3) (ascii ''j'') = None \<and>
   image_urls (soup site ''R'') = [ascii ''i1'', ascii ''i2'', ascii ''j'', ascii ''i3'', ascii ''i1''] \<and>
   map_option fst (download_images (Suc 0) site (origin @ ascii ''/3'') (ascii ''t'') start) =
     Some (Return [ascii ''t/001.jpg'', ascii ''t/002.jpg'', ascii ''t/004.jpg'', ascii ''t/005.jpg''])"
proof -
  have "\<exists>st'. download_images (Suc 0) site (origin @ ascii ''/3'') (ascii ''t'') start =
           Some (Return [path_join (ascii ''t'') (ascii ''001.jpg''), path_join (ascii ''t'') (ascii ''002.jpg''),
                         path_join (ascii ''t'') (ascii ''004.jpg''), path_join (ascii ''t'') (ascii ''005.jpg'')], st') \<and>
         written (events start st') =
           [(path_join (ascii ''t'') (ascii ''001.jpg''), ''a''), (path_join (ascii ''t'') (ascii ''002.jpg''), ''b''),
            (path_join (ascii ''t'') (ascii ''004.jpg''), ''c''), (path_join (ascii ''t'') (ascii ''005.jpg''), ''a'')] \<and>
         Log ERROR (Image_failed (ascii ''j'')) \<in> set (events start st')"
    by (rule download_images_gap[where page = "''R''" and ?u1.0 = "ascii ''i1''"
          and ?u2.0 = "ascii ''i2''" and ?u3.0 = "ascii ''j''" and ?u4.0 = "ascii ''i3''"
          and ?u5.0 = "ascii ''i1''" and ?b1.0 = "''a''" and ?b2.0 = "''b''" and ?b4.0 = "''c''"
          and ?b5.0 = "''a''"])
       (simp_all add: site_simps image_urls_def next_url_def)
  then show ?thesis
    by (auto simp: path_join_def site_simps image_urls_def)
qed

section \<open>A chapter of two pages\<close>








lemma events_append: "trace st' = trace st @ evs \<Longrightarrow> events st st' = evs"
  by (simp add: events_def)





section \<open>The orchestrator: requests and the session\<close>

lemma requests_get_eq:
  "requests_get w u st = (net w (clock st) u, emit (Get u) (st\<lparr>clock := Suc (clock st)\<rparr>))"
  by (simp add: requests_get_def request_def)

lemmas manga_simps = download_manga_def fetch_manga_title_def fetch_manga_author_def
  fetch_chapter_links_and_titles_def requests_get_eq output_dir_of_def strip_def is_space_def
  slugify_filename_def sub_reserved_def reserved_def underscore_def
  create_volume_epub_def build_book_def write_epub_def epub_path_def img_element_def basename_def

lemma for_image_path_trace:
  "for_image_path ps b st = (b', st') \<Longrightarrow>
     \<exists>evs. trace st' = trace st @ evs \<and> (\<forall>e\<in>set evs. in_session e)"
proof (induction ps arbitrary: b st)
  case Nil
  then show ?case by simp
next
  case (Cons p ps)
  show ?case
  proof (cases "files st p")
    case None
    with Cons.prems have "for_image_path ps b (emit (Log ERROR (Image_load_failed p)) st) = (b', st')"
      by simp
    from Cons.IH[OF this] obtain evs where
      "trace st' = trace st @ [Log ERROR (Image_load_failed p)] @ evs" "\<forall>e\<in>set evs. in_session e"
      by (auto simp: emit_simps)
    then show ?thesis by (intro exI[of _ "[Log ERROR (Image_load_failed p)] @ evs"]) simp
  next
    case (Some bytes)
    with Cons.prems Cons.IH show ?thesis by fastforce
  qed
qed

lemma create_volume_epub_trace:
  assumes "create_volume_epub w m v ps od st = (r, st')"
  shows "\<exists>evs. trace st' = trace st @ evs \<and> (\<forall>e\<in>set evs. in_session e)"
proof -
  obtain b st1 where bb: "build_book m v ps st = (b, st1)" by fastforce
  then obtain b1 where "for_image_path ps
      \<lparr>book_identifier = m @ ascii ''-'' @ v, book_title = m @ ascii '' '' @ v,
        book_language = ascii ''zh'',
        book_items = [Html \<lparr>html_title = v, html_file_name = v @ ascii ''.xhtml'',
                             html_content = for_img_path v ps []\<rparr>],
        book_toc = [], book_spine = []\<rparr> st = (b1, st1)"
    by (auto simp: build_book_def Let_def split: prod.splits)
  from for_image_path_trace[OF this] obtain evs1 where
    e1: "trace st1 = trace st @ evs1" "\<forall>e\<in>set evs1. in_session e" by blast
  show ?thesis
  proof (cases rule: ensure_dir_cases[of w od st1])
    case fail
    with assms bb have "st' = st1" by (simp add: create_volume_epub_def)
    with e1 show ?thesis by blast
  next
    case (ok st2 evs2)
    with assms bb have st': "st' = write_epub w (epub_path od m v) b st2"
      by (simp add: create_volume_epub_def)
    obtain evs3 where e3: "trace st' = trace st2 @ evs3" "\<forall>e\<in>set evs3. in_session e"
      unfolding st' write_epub_def by (cases "disk_ok w (epub_path od m v)") (auto simp: emit_simps)
    have "trace st' = trace st @ evs1 @ evs2 @ evs3" using e1(1) ok(2) e3(1) by simp
    moreover have "\<forall>e\<in>set (evs1 @ evs2 @ evs3). in_session e" using e1(2) ok(5) e3(2) by auto
    ultimately show ?thesis by blast
  qed
qed

lemma download_images_trace:
  assumes "download_images fuel w u d st = Some (r, st')"
  shows "\<exists>evs. trace st' = trace st @ evs \<and> (\<forall>e\<in>set evs. in_session e)"
  using while_current_url_trace[OF assms[unfolded download_images_def]] by blast

lemma for_title_chapter_url_trace:
  "for_title_chapter_url fuel w m od chapters st = Some (r, st') \<Longrightarrow>
     \<exists>evs. trace st' = trace st @ evs \<and> (\<forall>e\<in>set evs. in_session e)"
proof (induction chapters arbitrary: st)
  case Nil
  then show ?case by simp
next
  case (Cons c cs)
  obtain title u where c: "c = (title, u)" by (cases c)
  let ?d = "path_join (path_join od (ascii ''temp_images'')) (slugify_filename title)"
  from Cons.prems c obtain r1 st1 where
    d: "download_images fuel w u ?d st = Some (r1, st1)"
    by (cases "download_images fuel w u ?d st") (auto simp: Let_def)
  from download_images_trace[OF d] obtain evs1 where
    e1: "trace st1 = trace st @ evs1" "\<forall>e\<in>set evs1. in_session e" by blast
  show ?case
  proof (cases r1)
    case (Raise e)
    with Cons.prems c d have "st' = st1" by (simp add: Let_def)
    with e1 show ?thesis by blast
  next
    case (Return ps)
    obtain r2 st2 where cv: "create_volume_epub w m title ps od st1 = (r2, st2)" by fastforce
    from create_volume_epub_trace[OF cv] obtain evs2 where
      e2: "trace st2 = trace st1 @ evs2" "\<forall>e\<in>set evs2. in_session e" by blast
    show ?thesis
    proof (cases r2)
      case (Raise e)
      with Cons.prems c d Return cv have "st' = st2" by (simp add: Let_def)
      with e1 e2 show ?thesis by (intro exI[of _ "evs1 @ evs2"]) auto
    next
      case r2: (Return x)
      with Cons.prems c d Return cv
      have "for_title_chapter_url fuel w m od cs st2 = Some (r, st')" by (simp add: Let_def)
      from Cons.IH[OF this] obtain evs3 where
        e3: "trace st' = trace st2 @ evs3" "\<forall>e\<in>set evs3. in_session e" by blast
      with e1 e2 show ?thesis by (intro exI[of _ "evs1 @ evs2 @ evs3"]) auto
    qed
  qed
qed

lemma index_fetch_trace:
  "\<exists>evs. trace (snd (fetch_manga_title w u st)) = trace st @ evs \<and> filter is_request evs = [Get u] \<and>
         Session_open \<notin> set evs \<and> Session_close \<notin> set evs"
  "\<exists>evs. trace (snd (fetch_manga_author w u st)) = trace st @ evs \<and> filter is_request evs = [Get u] \<and>
         Session_open \<notin> set evs \<and> Session_close \<notin> set evs"
  "\<exists>evs. trace (snd (fetch_chapter_links_and_titles w u st)) = trace st @ evs \<and>
         filter is_request evs = [Get u] \<and> Session_open \<notin> set evs \<and> Session_close \<notin> set evs"
  by (auto simp: fetch_manga_title_def fetch_manga_author_def fetch_chapter_links_and_titles_def
        requests_get_eq emit_simps split: option.splits)

text \<open>
  Claim C4, as amended.  In every run of \<open>download_manga\<close> that ends, the events are:
  first a prefix whose requests are exactly three requests for the index page, made
  outside any session (one by each of \<open>fetch_manga_title\<close>, \<open>fetch_manga_author\<close> and
  \<open>fetch_chapter_links_and_titles\<close>); then the opening of one session; then events
  among which every request goes through that session; and last the closing of the
  session.
\<close>

theorem download_manga_requests:
  assumes "download_manga fuel w url st = Some (r, st')"
  shows "\<exists>pre evs. events st st' = pre @ [Session_open] @ evs @ [Session_close] \<and>
           filter is_request pre = [Get url, Get url, Get url] \<and>
           Session_open \<notin> set pre \<and> Session_close \<notin> set pre \<and>
           (\<forall>e\<in>set evs. in_session e)"
proof -
  obtain m st1 where f1: "fetch_manga_title w url st = (m, st1)" by fastforce
  obtain a st2 where f2: "fetch_manga_author w url st1 = (a, st2)" by fastforce
  let ?st3 = "emit (Log INFO (Detected_author a)) (emit (Log INFO (Detected_title m)) st2)"
  obtain cs st4 where f3: "fetch_chapter_links_and_titles w url ?st3 = (cs, st4)" by fastforce
  from index_fetch_trace(1)[of w url st] f1 obtain e1 where
    e1: "trace st1 = trace st @ e1" "filter is_request e1 = [Get url]"
      "Session_open \<notin> set e1" "Session_close \<notin> set e1" by auto
  from index_fetch_trace(2)[of w url st1] f2 obtain e2 where
    e2: "trace st2 = trace st1 @ e2" "filter is_request e2 = [Get url]"
      "Session_open \<notin> set e2" "Session_close \<notin> set e2" by auto
  from index_fetch_trace(3)[of w url ?st3] f3 obtain e3 where
    e3: "trace st4 = trace ?st3 @ e3" "filter is_request e3 = [Get url]"
      "Session_open \<notin> set e3" "Session_close \<notin> set e3" by auto
  let ?pre = "e1 @ e2 @ [Log INFO (Detected_title m), Log INFO (Detected_author a)] @ e3"
  have t4: "trace st4 = trace st @ ?pre" using e1(1) e2(1) e3(1) by (simp add: emit_simps)
  from assms f1 f2 f3 obtain st5 where
    l: "for_title_chapter_url fuel w m (output_dir_of m a) cs (emit Session_open st4) = Some (r, st5)"
    and st': "st' = emit Session_close st5"
    by (auto simp: download_manga_def Let_def split: option.splits)
  from for_title_chapter_url_trace[OF l] obtain evs where
    ev: "trace st5 = trace (emit Session_open st4) @ evs" "\<forall>e\<in>set evs. in_session e" by blast
  have "trace st' = trace st @ ?pre @ [Session_open] @ evs @ [Session_close]"
    using st' ev(1) t4 by (simp add: emit_simps)
  then have "events st st' = ?pre @ [Session_open] @ evs @ [Session_close]"
    by (rule events_append)
  moreover have "filter is_request ?pre = [Get url, Get url, Get url]"
    using e1(2) e2(2) e3(2) by simp
  moreover have "Session_open \<notin> set ?pre" "Session_close \<notin> set ?pre"
    using e1(3,4) e2(3,4) e3(3,4) by auto
  ultimately show ?thesis using ev(2) by blast
qed

theorem download_manga_requests_witness:
  "\<exists>pre evs.
      events start (snd (the (download_manga (Suc (Suc 0)) site index_url start))) =
        pre @ [Session_open] @ evs @ [Session_close] \<and>
      filter is_request pre = [Get index_url, Get index_url, Get index_url] \<and>
      Session_open \<notin> set pre \<and> Session_close \<notin> set pre \<and>
      (\<forall>e\<in>set evs. in_session e)"
proof -
  have e: "download_manga (Suc (Suc 0)) site index_url start =
      Some (Return (), snd (the (download_manga (Suc (Suc 0)) site index_url start)))"
    by (simp add: manga_simps run_simps site_simps)
  from download_manga_requests[OF e] show ?thesis .
qed

theorem download_manga_requests_counterexample:
  "map_option (filter is_request \<circ> trace \<circ> snd) (download_manga (Suc (Suc 0)) site index_url start) =
     Some [Get index_url, Get index_url, Get index_url,
           Session_get (origin @ ascii ''/1''), Session_get (ascii ''i1''), Session_get (ascii ''i2''),
           Session_get (origin @ ascii ''/1b''), Session_get (ascii ''i3''),
           Session_get (origin @ ascii ''/2''), Session_get (ascii ''i3'')]"
  by (simp add: manga_simps run_simps site_simps)

section \<open>The orchestrator: archive names and disk errors\<close>

text \<open>
  Claim C5.  The run on the example site ends normally and writes two archives.  The
  archive of the chapter titled \<open>Ch 1?\<close> is written under the title as extracted,
  \<open>M_Ch 1?.epub\<close>; the name built from the sanitized title, \<open>M_Ch_1.epub\<close>, is
  not written.
\<close>

theorem archive_named_by_raw_title:
  "map_option fst (download_manga (Suc (Suc 0)) site index_url start) = Some (Return ()) \<and>
   map_option (dom \<circ> epubs \<circ> snd) (download_manga (Suc (Suc 0)) site index_url start) =
     Some {ascii ''./M - A/M_Ch 1?.epub'', ascii ''./M - A/M_'' @ unknown_chapter @ ascii ''.epub''} \<and>
   epub_path (ascii ''./M - A'') (ascii ''M'') (slugify_filename (ascii ''Ch 1?'')) =
     ascii ''./M - A/M_Ch_1.epub''"
  by (simp add: manga_simps run_simps site_simps unknown_chapter_def insert_commute)

text \<open>
  Claim C6.  On a disk that refuses to create the image directory of the first chapter,
  the \<open>OSError\<close> leaves \<open>download_manga\<close>: the run ends with the error after the first
  request of the first chapter, the second chapter is never requested and no archive is
  written.
\<close>

theorem disk_error_aborts_run:
  "map_option fst (download_manga (Suc (Suc 0)) site_on_bad_disk index_url start) = Some (Raise OSError) \<and>
   map_option (trace \<circ> snd) (download_manga (Suc (Suc 0)) site_on_bad_disk index_url start) =
     Some [Get index_url, Get index_url,
           Log INFO (Detected_title (ascii ''M'')), Log INFO (Detected_author (ascii ''A'')),
           Get index_url, Session_open, Session_get (origin @ ascii ''/1''), Session_close]"
  by (simp add: manga_simps run_simps site_on_bad_disk_def site_simps)

end
